theory Spec2Isabelle
  imports Main "HOL-Library.State_Monad"
begin

section \<open>Python values and errors\<close>

text \<open>
  The agents are dynamically typed: their constructors and the executor test the type of
  what they are given with \<open>isinstance\<close>. The values they can be handed are modelled by
  one datatype, a dictionary being an association list in insertion order.
\<close>

datatype pyval =
    PNone
  | PBool bool
  | PInt int
  | PStr string
  | PList "pyval list"
  | PTuple "pyval list"
  | PDict "(pyval \<times> pyval) list"

text \<open>
  \<open>ValueError\<close> is what the repository raises itself (the specification calls it
  \<open>InvalidPatternType\<close> in the matcher and \<open>InvalidInputType\<close> in the executor);
  \<open>TypeError\<close> is what the Python runtime raises when \<open>str.join\<close> meets an item that
  is not a string or when \<open>**value\<close> is applied to something that is not a mapping with
  string keys; \<open>AgentError\<close> stands for whatever an agent raises on its own.
\<close>

datatype error = ValueError | TypeError | AgentError string

fun is_str :: "pyval \<Rightarrow> bool" where
  "is_str (PStr s) = True"
| "is_str v = False"

fun is_list :: "pyval \<Rightarrow> bool" where
  "is_list (PList xs) = True"
| "is_list v = False"

fun is_dict :: "pyval \<Rightarrow> bool" where
  "is_dict (PDict kvs) = True"
| "is_dict v = False"

fun the_str :: "pyval \<Rightarrow> string" where
  "the_str (PStr s) = s"
| "the_str v = []"

fun list_items :: "pyval \<Rightarrow> pyval list" where
  "list_items (PList vs) = vs"
| "list_items v = []"

fun dict_items :: "pyval \<Rightarrow> (pyval \<times> pyval) list" where
  "dict_items (PDict kvs) = kvs"
| "dict_items v = []"

section \<open>The binary pattern matcher\<close>

subsection \<open>Construction\<close>

text \<open>\<open>sep.join(items)\<close> on strings.\<close>

fun join :: "string \<Rightarrow> string list \<Rightarrow> string" where
  "join sep [] = []"
| "join sep [s] = s"
| "join sep (s # t # ss) = s @ sep @ join sep (t # ss)"

text \<open>
  \<open>_process_regex_patterns\<close>: a string is returned as it is, a list is joined with
  \<open>|\<close> (and \<open>str.join\<close> raises \<open>TypeError\<close> on an item that is not a string), anything
  else raises \<open>ValueError\<close>.
\<close>

fun process_regex_patterns :: "pyval \<Rightarrow> error + string" where
  "process_regex_patterns (PStr s) = Inr s"
| "process_regex_patterns (PList xs) =
     (if list_all is_str xs then Inr (join ''|'' (map the_str xs)) else Inl TypeError)"
| "process_regex_patterns v = Inl ValueError"

record RegexBinaryClassifierAgent =
  regex_pattern :: string
  unwanted_regex_patterns :: string
  context_range :: "int option"
  relevant_match :: string

text \<open>
  \<open>__init__\<close>: the two pattern arguments are processed in this order, the first failure
  being the one raised; the other two arguments are stored unchecked.
\<close>

definition binary_init ::
  "pyval \<Rightarrow> pyval \<Rightarrow> int option \<Rightarrow> string \<Rightarrow> error + RegexBinaryClassifierAgent" where
  "binary_init regex_patterns unwanted context_rng relevant =
     (case process_regex_patterns regex_patterns of
        Inl e \<Rightarrow> Inl e
      | Inr p \<Rightarrow>
          (case process_regex_patterns unwanted of
             Inl e \<Rightarrow> Inl e
           | Inr u \<Rightarrow>
               Inr \<lparr>regex_pattern = p, unwanted_regex_patterns = u,
                    context_range = context_rng, relevant_match = relevant\<rparr>))"

subsection \<open>The regular-expression library\<close>

text \<open>
  The matcher calls two functions of Python's \<open>re\<close> module, which is not part of the
  repository: \<open>re.finditer(pattern, text)\<close>, the spans \<open>(start, end)\<close> of the
  non-overlapping occurrences of the pattern from left to right, and
  \<open>re.search(pattern, text)\<close>, whether the pattern occurs anywhere in the text. They are
  a parameter of the model. Patterns are taken to be well-formed regular expressions, so
  that both functions return.
\<close>

record re_module =
  finditer :: "string \<Rightarrow> string \<Rightarrow> (int \<times> int) list"
  search :: "string \<Rightarrow> string \<Rightarrow> bool"

text \<open>
  What \<open>re\<close> does on a pattern without metacharacters, for running the model on
  concrete texts: the occurrences of the literal pattern, found from the left, the scan
  going on behind each occurrence; the empty pattern occurs, empty, at every position of
  the text, the end included.
\<close>

fun literal_finditer_from :: "string \<Rightarrow> nat \<Rightarrow> nat \<Rightarrow> string \<Rightarrow> (int \<times> int) list" where
  "literal_finditer_from p skip pos [] = (if p = [] then [(int pos, int pos)] else [])"
| "literal_finditer_from p skip pos (c # cs) =
     (if p = [] then (int pos, int pos) # literal_finditer_from p 0 (Suc pos) cs
      else if 0 < skip then literal_finditer_from p (skip - 1) (Suc pos) cs
      else if take (length p) (c # cs) = p
        then (int pos, int pos + int (length p)) #
             literal_finditer_from p (length p - 1) (Suc pos) cs
      else literal_finditer_from p 0 (Suc pos) cs)"

definition literal_re :: re_module where
  "literal_re =
     \<lparr>finditer = (\<lambda>p text. literal_finditer_from p 0 0 text),
      search = (\<lambda>p text. literal_finditer_from p 0 0 text \<noteq> [])\<rparr>"

text \<open>
  The spans \<open>re.finditer\<close> yields for the empty pattern on a text of length \<open>n\<close>:
  \<open>(0, 0), (1, 1), \<dots>, (n, n)\<close>.
\<close>

definition empty_pattern_spans :: "string \<Rightarrow> (int \<times> int) list" where
  "empty_pattern_spans data = map (\<lambda>i. (int i, int i)) [0..<Suc (length data)]"

subsection \<open>Evaluation\<close>

text \<open>
  A slice \<open>xs[i:j]\<close>: a negative index counts from the end, and both are clipped to
  the list; the slice is empty when its bounds cross.
\<close>

definition slice_index :: "int \<Rightarrow> int \<Rightarrow> int" where
  "slice_index n i = (if i < 0 then max (i + n) 0 else min i n)"

definition py_slice :: "'a list \<Rightarrow> int \<Rightarrow> int \<Rightarrow> 'a list" where
  "py_slice xs i j =
     (let n = int (length xs); lo = slice_index n i; hi = slice_index n j
      in take (nat (hi - lo)) (drop (nat lo) xs))"

text \<open>The \<open>context_span\<close> computed for one match, and the \<open>context_text\<close> sliced by it.\<close>

definition context_span :: "int option \<Rightarrow> string \<Rightarrow> int \<times> int \<Rightarrow> int \<times> int" where
  "context_span rng data span =
     (case rng of
        None \<Rightarrow> (0, int (length data))
      | Some r \<Rightarrow> (max 0 (fst span - r), min (int (length data)) (snd span + r)))"

definition context_text :: "int option \<Rightarrow> string \<Rightarrow> int \<times> int \<Rightarrow> string" where
  "context_text rng data span =
     (let cs = context_span rng data span in py_slice data (fst cs) (snd cs))"

text \<open>
  The value of \<open>curr_res\<close> after the first half of the loop body: set to \<open>True\<close> for
  the match, then to \<open>False\<close> when the stored exclusion expression is a non-empty string
  and is found in the context text.
\<close>

definition match_result :: "re_module \<Rightarrow> RegexBinaryClassifierAgent \<Rightarrow> string \<Rightarrow> int \<times> int \<Rightarrow> bool" where
  "match_result re self data span =
     (if unwanted_regex_patterns self \<noteq> [] \<and>
         search re (unwanted_regex_patterns self) (context_text (context_range self) data span)
      then False else True)"

text \<open>
  The \<open>for\<close> loop of \<open>__call__\<close> over the matches still to come, \<open>curr_res\<close> being
  the value left by the matches already seen, and the \<open>return curr_res\<close> behind it.
\<close>

fun scan :: "re_module \<Rightarrow> RegexBinaryClassifierAgent \<Rightarrow> string \<Rightarrow> bool \<Rightarrow> (int \<times> int) list \<Rightarrow> bool" where
  "scan re self data curr_res [] = curr_res"
| "scan re self data curr_res (span # rest) =
     (let curr_res = match_result re self data span
      in if relevant_match self = ''any''
         then (if curr_res then True else scan re self data curr_res rest)
         else if relevant_match self = ''first'' then curr_res
         else scan re self data curr_res rest)"

definition binary_call :: "re_module \<Rightarrow> RegexBinaryClassifierAgent \<Rightarrow> string \<Rightarrow> bool" where
  "binary_call re self data = scan re self data False (finditer re (regex_pattern self) data)"

subsection \<open>The algorithm of the specification\<close>

text \<open>
  The reference the matcher is compared with, after the words of the specification and
  on the patterns as they are configured. A pattern set is made of a single pattern or of
  a sequence of patterns, and is OR-combined into one expression, the patterns separated
  by \<open>|\<close>. The context window of an occurrence is the whole text or the characters at
  the positions from \<open>max(0, start - r)\<close> up to, not including,
  \<open>min(len(text), end + r)\<close>. An occurrence is qualified unless an exclusion expression
  is configured and matches inside the window. The policy reduces the qualifications of
  the occurrences, from left to right, to one boolean.
\<close>

datatype match_policy = PolicyAny | PolicyFirst | PolicyLast

fun policy_name :: "match_policy \<Rightarrow> string" where
  "policy_name PolicyAny = ''any''"
| "policy_name PolicyFirst = ''first''"
| "policy_name PolicyLast = ''last''"

fun spec_patterns :: "pyval \<Rightarrow> string list" where
  "spec_patterns (PStr p) = [p]"
| "spec_patterns (PList ps) = map the_str ps"
| "spec_patterns v = []"

fun spec_expression :: "string list \<Rightarrow> string" where
  "spec_expression [] = []"
| "spec_expression (p # ps) = p @ concat (map (\<lambda>q. CHR ''|'' # q) ps)"

text \<open>
  What a pattern set can be constructed from: a string, or a list whose items are
  strings.
\<close>

definition pattern_input :: "pyval \<Rightarrow> bool" where
  "pattern_input v = (is_str v \<or> (is_list v \<and> list_all is_str (list_items v)))"

definition spec_context_window :: "int option \<Rightarrow> string \<Rightarrow> int \<times> int \<Rightarrow> string" where
  "spec_context_window rng text span =
     (case rng of
        None \<Rightarrow> text
      | Some r \<Rightarrow>
          map (\<lambda>i. text ! i)
            [nat (max 0 (fst span - r))..<nat (min (int (length text)) (snd span + r))])"

text \<open>
  An exclusion expression is configured when exclusion patterns are given: a string, or
  a list that is not the empty list of the default.
\<close>

definition spec_exclusion_configured :: "pyval \<Rightarrow> bool" where
  "spec_exclusion_configured exclusion = (spec_patterns exclusion \<noteq> [])"

definition spec_qualified ::
  "re_module \<Rightarrow> pyval \<Rightarrow> int option \<Rightarrow> string \<Rightarrow> int \<times> int \<Rightarrow> bool" where
  "spec_qualified re exclusion rng text span =
     (\<not> (spec_exclusion_configured exclusion \<and>
         search re (spec_expression (spec_patterns exclusion))
           (spec_context_window rng text span)))"

fun spec_reduce :: "match_policy \<Rightarrow> bool list \<Rightarrow> bool" where
  "spec_reduce PolicyAny qualified = list_ex (\<lambda>q. q) qualified"
| "spec_reduce PolicyFirst qualified = (case qualified of [] \<Rightarrow> False | q # qs \<Rightarrow> q)"
| "spec_reduce PolicyLast qualified = (case rev qualified of [] \<Rightarrow> False | q # qs \<Rightarrow> q)"

definition spec_evaluate ::
  "re_module \<Rightarrow> pyval \<Rightarrow> pyval \<Rightarrow> int option \<Rightarrow> match_policy \<Rightarrow> string \<Rightarrow> bool" where
  "spec_evaluate re inclusion exclusion rng policy text =
     spec_reduce policy
       (map (spec_qualified re exclusion rng text)
          (finditer re (spec_expression (spec_patterns inclusion)) text))"

text \<open>
  The same algorithm with the one change the matcher needs: an exclusion expression
  counts only when it is not the empty string, so that the single exclusion pattern
  \<open>''\<close> is as good as none.
\<close>

definition spec_qualified_amended ::
  "re_module \<Rightarrow> pyval \<Rightarrow> int option \<Rightarrow> string \<Rightarrow> int \<times> int \<Rightarrow> bool" where
  "spec_qualified_amended re exclusion rng text span =
     (\<not> (spec_expression (spec_patterns exclusion) \<noteq> [] \<and>
         search re (spec_expression (spec_patterns exclusion))
           (spec_context_window rng text span)))"

definition spec_evaluate_amended ::
  "re_module \<Rightarrow> pyval \<Rightarrow> pyval \<Rightarrow> int option \<Rightarrow> match_policy \<Rightarrow> string \<Rightarrow> bool" where
  "spec_evaluate_amended re inclusion exclusion rng policy text =
     spec_reduce policy
       (map (spec_qualified_amended re exclusion rng text)
          (finditer re (spec_expression (spec_patterns inclusion)) text))"

text \<open>A match span lies inside the text it was found in.\<close>

definition span_in_text :: "string \<Rightarrow> int \<times> int \<Rightarrow> bool" where
  "span_in_text data span =
     (0 \<le> fst span \<and> fst span \<le> snd span \<and> snd span \<le> int (length data))"

definition radius_ok :: "int option \<Rightarrow> bool" where
  "radius_ok rng = (case rng of None \<Rightarrow> True | Some r \<Rightarrow> 0 \<le> r)"

section \<open>The multi-label classifier\<close>

text \<open>
  A dictionary is an association list in insertion order; \<open>d[k] = v\<close> replaces the
  value of a key that is present, in place, and appends a new key.
\<close>

fun dict_set :: "('k \<times> 'v) list \<Rightarrow> 'k \<Rightarrow> 'v \<Rightarrow> ('k \<times> 'v) list" where
  "dict_set [] k v = [(k, v)]"
| "dict_set ((k', v') # kvs) k v =
     (if k' = k then (k', v) # kvs else (k', v') # dict_set kvs k v)"

text \<open>
  The keyword arguments of one label, \<open>RegexBinaryClassifierAgent(**kwargs)\<close>, with
  the defaults of the constructor filled in where the dictionary leaves an argument out.
\<close>

record binary_kwargs =
  kw_regex_patterns :: pyval
  kw_unwanted_regex_patterns :: pyval
  kw_context_range :: "int option"
  kw_relevant_match :: string

definition binary_init_kwargs :: "binary_kwargs \<Rightarrow> error + RegexBinaryClassifierAgent" where
  "binary_init_kwargs kw =
     binary_init (kw_regex_patterns kw) (kw_unwanted_regex_patterns kw)
       (kw_context_range kw) (kw_relevant_match kw)"

record RegexMultiLabelClassifierAgent =
  regex_binary_classifier_per_label :: "(string \<times> RegexBinaryClassifierAgent) list"

text \<open>
  \<open>_get_label_to_regex_binary_classifier_mapping\<close>: the loop over the items of the
  configuration, \<open>acc\<close> being the dictionary built so far; a matcher that fails to build
  ends the loop with its error.
\<close>

fun get_label_to_regex_binary_classifier_mapping ::
  "(string \<times> binary_kwargs) list \<Rightarrow> (string \<times> RegexBinaryClassifierAgent) list \<Rightarrow>
   error + (string \<times> RegexBinaryClassifierAgent) list" where
  "get_label_to_regex_binary_classifier_mapping [] acc = Inr acc"
| "get_label_to_regex_binary_classifier_mapping ((label, kw) # rest) acc =
     (case binary_init_kwargs kw of
        Inl e \<Rightarrow> Inl e
      | Inr clf \<Rightarrow> get_label_to_regex_binary_classifier_mapping rest (dict_set acc label clf))"

definition multilabel_init ::
  "(string \<times> binary_kwargs) list \<Rightarrow> error + RegexMultiLabelClassifierAgent" where
  "multilabel_init kwargs_per_label =
     (case get_label_to_regex_binary_classifier_mapping kwargs_per_label [] of
        Inl e \<Rightarrow> Inl e
      | Inr m \<Rightarrow> Inr \<lparr>regex_binary_classifier_per_label = m\<rparr>)"

text \<open>The loop of \<open>__call__\<close>, \<open>labels\<close> being the list appended to.\<close>

fun multilabel_loop ::
  "re_module \<Rightarrow> string \<Rightarrow> (string \<times> RegexBinaryClassifierAgent) list \<Rightarrow> string list \<Rightarrow>
   string list" where
  "multilabel_loop re data [] labels = labels"
| "multilabel_loop re data ((label, clf) # rest) labels =
     (let res = binary_call re clf data
      in multilabel_loop re data rest (if res then labels @ [label] else labels))"

definition multilabel_call ::
  "re_module \<Rightarrow> RegexMultiLabelClassifierAgent \<Rightarrow> string \<Rightarrow> string list" where
  "multilabel_call re self data =
     multilabel_loop re data (regex_binary_classifier_per_label self) []"

section \<open>The multi-class classifier\<close>

record RegexMultiClassClassifierAgent =
  regex_multilabel_classifier :: RegexMultiLabelClassifierAgent
  classes_priorities :: "string list"

text \<open>
  \<open>__init__\<close>: without a priority list the keys of the configuration are taken, in
  their order (the warning logged there is not modelled).
\<close>

definition multiclass_init ::
  "(string \<times> binary_kwargs) list \<Rightarrow> string list option \<Rightarrow>
   error + RegexMultiClassClassifierAgent" where
  "multiclass_init kwargs_per_class priorities =
     (case multilabel_init kwargs_per_class of
        Inl e \<Rightarrow> Inl e
      | Inr ml \<Rightarrow>
          Inr \<lparr>regex_multilabel_classifier = ml,
               classes_priorities =
                 (case priorities of
                    None \<Rightarrow> map fst kwargs_per_class
                  | Some ps \<Rightarrow> ps)\<rparr>)"

text \<open>
  The loop of \<open>__call__\<close> over the priorities, with its \<open>return class_\<close> inside and
  its \<open>return None\<close> behind.
\<close>

fun multiclass_loop :: "string list \<Rightarrow> string list \<Rightarrow> string option" where
  "multiclass_loop [] multi_label_res = None"
| "multiclass_loop (cls # rest) multi_label_res =
     (if cls \<in> set multi_label_res then Some cls
      else multiclass_loop rest multi_label_res)"

definition multiclass_call ::
  "re_module \<Rightarrow> RegexMultiClassClassifierAgent \<Rightarrow> string \<Rightarrow> string option" where
  "multiclass_call re self data =
     (let multi_label_res = multilabel_call re (regex_multilabel_classifier self) data
      in multiclass_loop (classes_priorities self) multi_label_res)"

section \<open>The cascade as programs on the state of the objects\<close>

text \<open>
  The three \<open>__call__\<close> methods once more, this time as programs that run on the
  state of the object they are called on, so that what a call leaves behind can be
  stated. The state of a matcher is its four attributes; the state of the multi-label
  classifier is its dictionary, the matchers in it included, since the dictionary holds
  the matcher objects themselves; the state of the multi-class classifier is its
  multi-label classifier and its priorities. An access \<open>self.attr\<close> reads the state.
  A call of a method of an object held in an attribute runs on the state of that object,
  and the state the call leaves is what the attribute holds afterwards.
\<close>

definition read :: "('s \<Rightarrow> 'a) \<Rightarrow> ('s, 'a) state" where
  "read attr = do { self \<leftarrow> State_Monad.get; State_Monad.return (attr self) }"

definition on_attr :: "('s \<Rightarrow> 't) \<Rightarrow> ('t \<Rightarrow> 's \<Rightarrow> 's) \<Rightarrow> ('t, 'a) state \<Rightarrow> ('s, 'a) state" where
  "on_attr attr store m =
     do {
       self \<leftarrow> State_Monad.get;
       (case run_state m (attr self) of
          (r, obj) \<Rightarrow> do { State_Monad.set (store obj self); State_Monad.return r })
     }"

text \<open>\<open>RegexBinaryClassifierAgent.__call__\<close>: the loop, and the call.\<close>

fun scan_m ::
  "re_module \<Rightarrow> string \<Rightarrow> bool \<Rightarrow> (int \<times> int) list \<Rightarrow> (RegexBinaryClassifierAgent, bool) state"
  where
  "scan_m re data curr_res [] = State_Monad.return curr_res"
| "scan_m re data curr_res (span # rest) =
     do {
       rng \<leftarrow> read context_range;
       unwanted \<leftarrow> read unwanted_regex_patterns;
       relevant \<leftarrow> read relevant_match;
       (let curr_res =
              (if unwanted \<noteq> [] \<and> search re unwanted (context_text rng data span)
               then False else True)
        in if relevant = ''any''
           then (if curr_res then State_Monad.return True
                 else scan_m re data curr_res rest)
           else if relevant = ''first'' then State_Monad.return curr_res
           else scan_m re data curr_res rest)
     }"

definition binary_call_m :: "re_module \<Rightarrow> string \<Rightarrow> (RegexBinaryClassifierAgent, bool) state" where
  "binary_call_m re data =
     do {
       pattern \<leftarrow> read regex_pattern;
       scan_m re data False (finditer re pattern data)
     }"

text \<open>
  \<open>RegexMultiLabelClassifierAgent.__call__\<close>: the loop over the items of the
  dictionary, by their positions; the matcher of an item is called on its own state, in
  the dictionary.
\<close>

definition item_matcher :: "nat \<Rightarrow> RegexMultiLabelClassifierAgent \<Rightarrow> RegexBinaryClassifierAgent" where
  "item_matcher i self = snd (regex_binary_classifier_per_label self ! i)"

definition store_item_matcher ::
  "nat \<Rightarrow> RegexBinaryClassifierAgent \<Rightarrow> RegexMultiLabelClassifierAgent \<Rightarrow>
   RegexMultiLabelClassifierAgent" where
  "store_item_matcher i clf self =
     self\<lparr>regex_binary_classifier_per_label :=
       (regex_binary_classifier_per_label self)
         [i := (fst (regex_binary_classifier_per_label self ! i), clf)]\<rparr>"

fun multilabel_loop_m ::
  "re_module \<Rightarrow> string \<Rightarrow> nat list \<Rightarrow> string list \<Rightarrow>
   (RegexMultiLabelClassifierAgent, string list) state" where
  "multilabel_loop_m re data [] labels = State_Monad.return labels"
| "multilabel_loop_m re data (i # rest) labels =
     do {
       label \<leftarrow> read (\<lambda>self. fst (regex_binary_classifier_per_label self ! i));
       res \<leftarrow> on_attr (item_matcher i) (store_item_matcher i) (binary_call_m re data);
       multilabel_loop_m re data rest (if res then labels @ [label] else labels)
     }"

definition multilabel_call_m ::
  "re_module \<Rightarrow> string \<Rightarrow> (RegexMultiLabelClassifierAgent, string list) state" where
  "multilabel_call_m re data =
     do {
       n \<leftarrow> read (\<lambda>self. length (regex_binary_classifier_per_label self));
       multilabel_loop_m re data [0..<n] []
     }"

text \<open>\<open>RegexMultiClassClassifierAgent.__call__\<close>\<close>

definition multiclass_call_m ::
  "re_module \<Rightarrow> string \<Rightarrow> (RegexMultiClassClassifierAgent, string option) state" where
  "multiclass_call_m re data =
     do {
       multi_label_res \<leftarrow>
         on_attr regex_multilabel_classifier
           (\<lambda>ml self. self\<lparr>regex_multilabel_classifier := ml\<rparr>)
           (multilabel_call_m re data);
       priorities \<leftarrow> read classes_priorities;
       State_Monad.return (multiclass_loop priorities multi_label_res)
     }"

text \<open>Two calls in a row, the second on the state the first has left.\<close>

definition twice :: "('s, 'a) state \<Rightarrow> ('s, 'a \<times> 'a) state" where
  "twice m = do { r1 \<leftarrow> m; r2 \<leftarrow> m; State_Monad.return (r1, r2) }"

section \<open>The executor of an agent on many inputs\<close>

text \<open>
  An agent class is called with keyword arguments and returns an agent or raises; an agent
  is called with keyword arguments and returns a value or raises.
\<close>

type_synonym kwargs = "(string \<times> pyval) list"

type_synonym agent_instance = "kwargs \<Rightarrow> error + pyval"

type_synonym agent_class = "kwargs \<Rightarrow> error + agent_instance"

text \<open>
  What the executor does that can be seen from outside: constructing the agent, and
  submitting the task of a key to the pool.
\<close>

datatype event = Construct | Submit pyval

text \<open>
  A future is the outcome of its task, a result or the exception the task raised, which
  \<open>future.result()\<close> returns or raises again. \<open>future_to_key\<close> maps each future to
  its key.
\<close>

type_synonym future = "error + pyval"

text \<open>\<open>**value\<close>: the value must be a mapping, and its keys strings.\<close>

fun unpack_kwargs :: "pyval \<Rightarrow> error + kwargs" where
  "unpack_kwargs (PDict kvs) =
     (if list_all (\<lambda>kv. is_str (fst kv)) kvs
      then Inr (map (\<lambda>kv. (the_str (fst kv), snd kv)) kvs)
      else Inl TypeError)"
| "unpack_kwargs v = Inl TypeError"

text \<open>\<open>{i: v for i, v in enumerate(inputs)}\<close>\<close>

definition enumerate_dict :: "pyval list \<Rightarrow> (pyval \<times> pyval) list" where
  "enumerate_dict vs = zip (map (\<lambda>i. PInt (int i)) [0..<length vs]) vs"

text \<open>
  The comprehension that builds \<open>future_to_key\<close>: one task is submitted per item, in
  the order of the items; unpacking a value that is not a mapping raises in the calling
  thread and ends the comprehension. The events are those of the submissions made.
\<close>

fun submit_all ::
  "agent_instance \<Rightarrow> (pyval \<times> pyval) list \<Rightarrow> event list \<times> (error + (future \<times> pyval) list)" where
  "submit_all agent [] = ([], Inr [])"
| "submit_all agent ((key, val) # rest) =
     (case unpack_kwargs val of
        Inl e \<Rightarrow> ([], Inl e)
      | Inr kw \<Rightarrow>
          (case submit_all agent rest of
             (log, Inl e) \<Rightarrow> (Submit key # log, Inl e)
           | (log, Inr futures) \<Rightarrow> (Submit key # log, Inr ((agent kw, key) # futures))))"

text \<open>
  The loop over the completed futures: \<open>results[key] = future.result()\<close>, the first
  exception met ending it.
\<close>

fun collect_results ::
  "(future \<times> pyval) list \<Rightarrow> (pyval \<times> pyval) list \<Rightarrow> error + (pyval \<times> pyval) list" where
  "collect_results [] results = Inr results"
| "collect_results ((fut, key) # rest) results =
     (case fut of
        Inl e \<Rightarrow> Inl e
      | Inr r \<Rightarrow> collect_results rest (dict_set results key r))"

text \<open>
  \<open>MultiInputsAgentExecuter.__call__\<close>. \<open>as_completed\<close> is the order in which the
  pool completes the futures, a parameter. The name \<open>inputs\<close> is bound again to the
  dictionary made of a list, and it is this second \<open>inputs\<close> that the test behind the
  pool reads.
\<close>

definition executer_call ::
  "agent_class \<Rightarrow> ((future \<times> pyval) list \<Rightarrow> (future \<times> pyval) list) \<Rightarrow> pyval \<Rightarrow> kwargs \<Rightarrow>
   event list \<times> (error + pyval)" where
  "executer_call agent_cls as_completed inputs kwargs =
     (if is_dict inputs \<or> is_list inputs then
        (let inputs = (if is_list inputs then PDict (enumerate_dict (list_items inputs))
                       else inputs)
         in case agent_cls kwargs of
              Inl e \<Rightarrow> ([Construct], Inl e)
            | Inr agent \<Rightarrow>
                (case submit_all agent (dict_items inputs) of
                   (log, Inl e) \<Rightarrow> (Construct # log, Inl e)
                 | (log, Inr future_to_key) \<Rightarrow>
                     (case collect_results (as_completed future_to_key) [] of
                        Inl e \<Rightarrow> (Construct # log, Inl e)
                      | Inr results \<Rightarrow>
                          (Construct # log,
                           Inr (if is_list inputs then PList (map snd results)
                                else PDict results)))))
      else ([], Inl ValueError))"

text \<open>
  An agent that returns the argument \<open>i\<close> it is called with, and its class, for running
  the executor.
\<close>

definition index_agent :: agent_instance where
  "index_agent kw = (case map_of kw ''i'' of None \<Rightarrow> Inl TypeError | Some v \<Rightarrow> Inr v)"

definition index_agent_class :: agent_class where
  "index_agent_class kw = Inr index_agent"

definition five_inputs :: pyval where
  "five_inputs = PList (map (\<lambda>i. PDict [(PStr ''i'', PInt i)]) [0, 1, 2, 3, 4])"

section \<open>Notions used in the statements\<close>

text \<open>
  An entry of the classifier's dictionary is built from an item of the configuration: it
  has the item's label, and its matcher is the one constructed from the item's arguments.
\<close>

definition built_from ::
  "string \<times> binary_kwargs \<Rightarrow> string \<times> RegexBinaryClassifierAgent \<Rightarrow> bool" where
  "built_from item entry =
     (fst entry = fst item \<and> binary_init_kwargs (snd item) = Inr (snd entry))"

text \<open>The matcher bound to a label returns true on the text.\<close>

definition label_matches ::
  "re_module \<Rightarrow> RegexMultiLabelClassifierAgent \<Rightarrow> string \<Rightarrow> string \<Rightarrow> bool" where
  "label_matches re self data label =
     (case map_of (regex_binary_classifier_per_label self) label of
        None \<Rightarrow> False
      | Some clf \<Rightarrow> binary_call re clf data)"

text \<open>
  A configuration of three labels, after the example of the repository, with literal
  patterns; the matchers, the classifier and the resolver it builds.
\<close>

definition default_kwargs :: "pyval \<Rightarrow> binary_kwargs" where
  "default_kwargs patterns =
     \<lparr>kw_regex_patterns = patterns, kw_unwanted_regex_patterns = PList [],
      kw_context_range = None, kw_relevant_match = ''any''\<rparr>"

definition sentiment_kwargs :: "(string \<times> binary_kwargs) list" where
  "sentiment_kwargs =
     [(''positive'', default_kwargs (PStr ''great'')),
      (''negative'', default_kwargs (PList [PStr ''bad''])),
      (''neutral'', default_kwargs (PStr ''ok''))]"

definition matcher_for :: "string \<Rightarrow> RegexBinaryClassifierAgent" where
  "matcher_for p =
     \<lparr>regex_pattern = p, unwanted_regex_patterns = [], context_range = None,
      relevant_match = ''any''\<rparr>"

definition sentiment_classifier :: RegexMultiLabelClassifierAgent where
  "sentiment_classifier =
     \<lparr>regex_binary_classifier_per_label =
        [(''positive'', matcher_for ''great''), (''negative'', matcher_for ''bad''),
         (''neutral'', matcher_for ''ok'')]\<rparr>"

definition sentiment_resolver :: RegexMultiClassClassifierAgent where
  "sentiment_resolver =
     \<lparr>regex_multilabel_classifier = sentiment_classifier,
      classes_priorities = [''negative'', ''positive'', ''neutral'']\<rparr>"

section \<open>Construction of the matcher\<close>

lemma list_all_is_str_map [simp]: "list_all is_str (map PStr ps)"
  by (induction ps) simp_all

lemma the_str_comp_PStr [simp]: "the_str \<circ> PStr = id"
  by (rule ext) simp

lemma process_str_list: "process_regex_patterns (PList (map PStr ps)) = Inr (join ''|'' ps)"
  by simp

lemma process_not_str_not_list:
  "\<not> is_str v \<Longrightarrow> \<not> is_list v \<Longrightarrow> process_regex_patterns v = Inl ValueError"
  by (cases v) simp_all

lemma binary_init_not_str_not_list:
  "\<not> is_str v \<Longrightarrow> \<not> is_list v \<Longrightarrow> binary_init v u r m = Inl ValueError"
  by (simp add: binary_init_def process_not_str_not_list)

text \<open>
  C6. Construction is claimed to raise the matcher's own error (\<open>ValueError\<close>) on every
  input that is neither a string nor a sequence of strings. A list holding an item that is
  not a string is such an input, and there the failure comes from \<open>str.join\<close>, as a
  \<open>TypeError\<close>, for the inclusion argument and for the exclusion argument alike. (On
  what is neither a string nor a list the error is \<open>ValueError\<close>, and strings and lists
  of strings are accepted: the lemmas above.)
\<close>

theorem binary_init_list_of_int:
  "binary_init (PList [PInt 1]) (PList []) None ''any'' = Inl TypeError \<and>
   binary_init (PStr ''a'') (PList [PInt 1]) None ''any'' = Inl TypeError \<and>
   binary_init (PList [PInt 1]) (PList []) None ''any'' \<noteq> Inl ValueError"
  by (simp add: binary_init_def)

text \<open>
  C9, as stated: an empty sequence as the inclusion patterns is a construction error.
  It is not: the empty list is joined into the empty expression and the matcher is built.
\<close>

theorem binary_init_empty_list_counterexample:
  "binary_init (PList []) (PList []) None ''any'' =
     Inr \<lparr>regex_pattern = [], unwanted_regex_patterns = [],
          context_range = None, relevant_match = ''any''\<rparr> \<and>
   \<not> isl (binary_init (PList []) (PList []) None ''any'')"
  by (simp add: binary_init_def)

lemma join_spec_expression: "join ''|'' ps = spec_expression ps"
  by (induction "''|''" ps rule: join.induct) simp_all

lemma process_pattern_input:
  "process_regex_patterns v =
     (if pattern_input v then Inr (spec_expression (spec_patterns v))
      else Inl (if is_list v then TypeError else ValueError))"
  by (cases v) (simp_all add: pattern_input_def join_spec_expression)

text \<open>
  C9, amended: a pattern set is constructed only from a single pattern or a sequence of
  patterns, which may be empty. Construction succeeds if the inclusion argument and the
  exclusion argument are each a string or a list of strings, of any length, and fails
  otherwise; when it succeeds the expression stored for each is its patterns, the string
  alone or the items of the list, separated by \<open>|\<close>. The empty list is such an
  argument, and its expression is the empty one: as the inclusion patterns it is not a
  construction error.
\<close>

theorem binary_init_pattern_set:
  "(if pattern_input inclusion \<and> pattern_input exclusion
    then binary_init inclusion exclusion r m =
           Inr \<lparr>regex_pattern = spec_expression (spec_patterns inclusion),
                unwanted_regex_patterns = spec_expression (spec_patterns exclusion),
                context_range = r, relevant_match = m\<rparr>
    else isl (binary_init inclusion exclusion r m)) \<and>
   pattern_input (PList []) \<and> spec_expression (spec_patterns (PList [])) = []"
  by (simp add: binary_init_def process_pattern_input pattern_input_def)

theorem binary_init_pattern_set_witness:
  "binary_init (PStr ''a'') (PStr ''b'') None ''any'' =
     Inr \<lparr>regex_pattern = ''a'', unwanted_regex_patterns = ''b'',
          context_range = None, relevant_match = ''any''\<rparr> \<and>
   binary_init (PList []) (PList [PStr ''b'', PStr ''c'']) None ''any'' =
     Inr \<lparr>regex_pattern = [], unwanted_regex_patterns = ''b|c'',
          context_range = None, relevant_match = ''any''\<rparr> \<and>
   isl (binary_init (PInt 1) (PStr ''b'') None ''any'') \<and>
   isl (binary_init (PStr ''a'') (PTuple [PStr ''b'']) None ''any'')"
  using binary_init_pattern_set [of "PStr ''a''" "PStr ''b''" None "''any''"]
    binary_init_pattern_set [of "PList []" "PList [PStr ''b'', PStr ''c'']" None "''any''"]
    binary_init_pattern_set [of "PInt 1" "PStr ''b''" None "''any''"]
    binary_init_pattern_set [of "PStr ''a''" "PTuple [PStr ''b'']" None "''any''"]
  by (simp add: pattern_input_def)

lemma binary_init_stored:
  assumes "binary_init inclusion exclusion rng m = Inr self"
  shows "regex_pattern self = spec_expression (spec_patterns inclusion) \<and>
         unwanted_regex_patterns self = spec_expression (spec_patterns exclusion) \<and>
         context_range self = rng \<and> relevant_match self = m"
  using assms
  by (auto simp: binary_init_def process_pattern_input split: sum.splits if_splits)

section \<open>The context window\<close>

lemma py_slice_window:
  assumes "0 \<le> a" "0 \<le> b" "b \<le> int (length xs)"
  shows "py_slice xs a b = map (\<lambda>i. xs ! i) [nat a..<nat b]"
proof -
  have idx: "slice_index (int (length xs)) a = min a (int (length xs))"
            "slice_index (int (length xs)) b = b"
    using assms by (simp_all add: slice_index_def)
  show ?thesis
  proof (cases "a \<le> b")
    case True
    then have "py_slice xs a b = take (nat (b - a)) (drop (nat a) xs)"
      using assms idx by (simp add: py_slice_def Let_def min_def)
    also have "\<dots> = map (\<lambda>i. xs ! i) [nat a..<nat b]"
      using True assms
      by (intro nth_equalityI) (auto simp: nat_diff_distrib nat_le_iff)
    finally show ?thesis .
  next
    case False
    then show ?thesis using assms idx by (simp add: py_slice_def Let_def min_def)
  qed
qed

lemma py_slice_all: "py_slice xs 0 (int (length xs)) = xs"
  by (simp add: py_slice_def slice_index_def Let_def)

lemma context_text_window:
  assumes "radius_ok rng" "0 \<le> snd span"
  shows "context_text rng data span = spec_context_window rng data span"
proof (cases rng)
  case None
  then show ?thesis
    by (simp add: context_text_def context_span_def spec_context_window_def py_slice_all)
next
  case (Some r)
  with assms have r: "0 \<le> r" by (simp add: radius_ok_def)
  have "py_slice data (max 0 (fst span - r)) (min (int (length data)) (snd span + r)) =
        map (\<lambda>i. data ! i)
          [nat (max 0 (fst span - r))..<nat (min (int (length data)) (snd span + r))]"
    using r assms(2) by (intro py_slice_window) simp_all
  then show ?thesis using Some
    by (simp add: context_text_def context_span_def spec_context_window_def Let_def)
qed

text \<open>
  C3. For a match span \<open>[start, stop)\<close> inside the text and a radius \<open>r \<ge> 0\<close>, the
  span computed is \<open>(max(0, start - r), min(len, stop + r))\<close>, the text searched for the
  exclusion is exactly the characters at the positions of that range, and the range lies
  within the text and holds the match; without a radius the span is \<open>(0, len)\<close> and the
  text searched is the whole text.
\<close>

theorem context_window_exact:
  assumes "0 \<le> r" and "span_in_text data (start, stop)"
  shows "context_span (Some r) data (start, stop) =
           (max 0 (start - r), min (int (length data)) (stop + r)) \<and>
         context_text (Some r) data (start, stop) =
           map (\<lambda>i. data ! i)
             [nat (max 0 (start - r))..<nat (min (int (length data)) (stop + r))] \<and>
         0 \<le> max 0 (start - r) \<and> max 0 (start - r) \<le> start \<and>
         stop \<le> min (int (length data)) (stop + r) \<and>
         min (int (length data)) (stop + r) \<le> int (length data) \<and>
         context_span None data (start, stop) = (0, int (length data)) \<and>
         context_text None data (start, stop) = data"
proof -
  from assms(2) have s: "0 \<le> start" "start \<le> stop" "stop \<le> int (length data)"
    by (simp_all add: span_in_text_def)
  have w: "context_text (Some r) data (start, stop) =
           spec_context_window (Some r) data (start, stop)"
    using assms(1) s by (intro context_text_window) (simp_all add: radius_ok_def)
  have n: "context_text None data (start, stop) = spec_context_window None data (start, stop)"
    using s by (intro context_text_window) (simp_all add: radius_ok_def)
  show ?thesis
    using w n assms(1) s by (simp add: context_span_def spec_context_window_def)
qed

theorem context_window_exact_witness:
  "(0::int) \<le> 2 \<and> span_in_text ''hello world'' (4, 7) \<and>
   context_span (Some 2) ''hello world'' (4, 7) = (2, 9) \<and>
   context_text (Some 2) ''hello world'' (4, 7) = ''llo wor'' \<and>
   context_span (Some 2) ''hello world'' (0, 11) = (0, 11) \<and>
   context_text None ''hello world'' (4, 7) = ''hello world''"
proof -
  have h1: "(0::int) \<le> 2" by simp
  have h2: "span_in_text ''hello world'' (4, 7)" by (simp add: span_in_text_def)
  have h3: "span_in_text ''hello world'' (0, 11)" by (simp add: span_in_text_def)
  show ?thesis
    using context_window_exact [OF h1 h2] context_window_exact [OF h1 h3] h2
    by (simp add: upt_rec)
qed

section \<open>Evaluation of the matcher\<close>

lemma match_result_amended:
  assumes "radius_ok rng" and "span_in_text data span"
    and "context_range self = rng"
    and "unwanted_regex_patterns self = spec_expression (spec_patterns exclusion)"
  shows "match_result re self data span = spec_qualified_amended re exclusion rng data span"
proof -
  from assms(2) have "0 \<le> snd span" by (simp add: span_in_text_def)
  with assms(1) have "context_text rng data span = spec_context_window rng data span"
    by (rule context_text_window)
  with assms(3,4) show ?thesis
    by (simp add: match_result_def spec_qualified_amended_def)
qed

lemma map_match_result_amended:
  assumes "radius_ok rng" and "list_all (span_in_text data) spans"
    and "context_range self = rng"
    and "unwanted_regex_patterns self = spec_expression (spec_patterns exclusion)"
  shows "map (match_result re self data) spans =
         map (spec_qualified_amended re exclusion rng data) spans"
  using assms by (induction spans) (simp_all add: match_result_amended)

text \<open>What the loop returns under each of the three ways it can run.\<close>

lemma scan_any:
  "relevant_match self = ''any'' \<Longrightarrow>
   scan re self data c spans =
     (if spans = [] then c else list_ex (match_result re self data) spans)"
  by (induction spans arbitrary: c) (simp_all add: Let_def)

lemma scan_first:
  "relevant_match self = ''first'' \<Longrightarrow>
   scan re self data c spans =
     (case spans of [] \<Rightarrow> c | s # ss \<Rightarrow> match_result re self data s)"
  by (cases spans) (simp_all add: Let_def)

lemma scan_last:
  "relevant_match self \<noteq> ''any'' \<Longrightarrow> relevant_match self \<noteq> ''first'' \<Longrightarrow>
   scan re self data c spans =
     (case rev spans of [] \<Rightarrow> c | s # ss \<Rightarrow> match_result re self data s)"
proof (induction spans arbitrary: c)
  case Nil
  then show ?case by simp
next
  case (Cons s spans)
  then show ?case by (cases "rev spans") (simp_all add: Let_def)
qed

lemma binary_call_reduce:
  assumes m: "relevant_match self = policy_name policy"
  shows "binary_call re self data =
         spec_reduce policy
           (map (match_result re self data) (finditer re (regex_pattern self) data))"
proof (cases policy)
  case PolicyAny
  with m show ?thesis
    by (simp add: binary_call_def scan_any list_ex_iff)
next
  case PolicyFirst
  with m show ?thesis
    by (simp add: binary_call_def scan_first split: list.splits)
next
  case PolicyLast
  with m show ?thesis
    by (simp add: binary_call_def scan_last rev_map [symmetric] split: list.splits)
qed

text \<open>
  C2, as stated: an occurrence is qualified iff no configured exclusion pattern matches
  inside its context window, for every configuration. With the inclusion pattern \<open>a\<close>
  and the exclusion patterns \<open>['']\<close>, on the text \<open>a\<close>: the pattern \<open>a\<close> occurs
  once, at \<open>(0, 1)\<close>; the exclusion pattern configured, the empty one, matches inside
  every window, as it matches everywhere, so that the occurrence is disqualified and the
  algorithm returns false under \<open>any\<close>. The matcher returns true: the expression it
  stored is the empty string, and it searches for a stored expression only when that is
  not empty.
\<close>

theorem binary_call_empty_exclusion_counterexample:
  "binary_init (PStr ''a'') (PList [PStr []]) None (policy_name PolicyAny) =
     Inr \<lparr>regex_pattern = ''a'', unwanted_regex_patterns = [],
          context_range = None, relevant_match = ''any''\<rparr> \<and>
   finditer literal_re ''a'' ''a'' = [(0, 1)] \<and>
   search literal_re [] ''a'' = True \<and>
   binary_call literal_re
     \<lparr>regex_pattern = ''a'', unwanted_regex_patterns = [],
      context_range = None, relevant_match = ''any''\<rparr> ''a'' = True \<and>
   spec_evaluate literal_re (PStr ''a'') (PList [PStr []]) None PolicyAny ''a'' = False"
  by (simp add: binary_init_def binary_call_def match_result_def literal_re_def
      spec_evaluate_def spec_qualified_def spec_exclusion_configured_def
      spec_context_window_def)

text \<open>
  C2, amended. For every matcher the constructor builds, whatever the inclusion patterns,
  the exclusion patterns, the radius (none, or not negative) and the policy, and for every
  text, \<open>__call__\<close> returns what the reference algorithm returns on the configured
  patterns, the occurrences being those \<open>re.finditer\<close> yields for the inclusion
  expression, match spans lying inside the text: an occurrence is qualified iff the
  exclusion expression, the exclusion patterns separated by \<open>|\<close>, is the empty string
  (no exclusion pattern, or only the pattern \<open>''\<close>) or is not found by \<open>re.search\<close>
  in the context window; \<open>any\<close> is true iff some occurrence is qualified, \<open>first\<close>
  is the qualification of the first occurrence, \<open>last\<close> that of the last, and no
  occurrence gives false.
\<close>

theorem binary_call_refines_spec:
  assumes "binary_init inclusion exclusion rng (policy_name policy) = Inr self"
    and "radius_ok rng"
    and "list_all (span_in_text data)
           (finditer re (spec_expression (spec_patterns inclusion)) data)"
  shows "binary_call re self data =
         spec_evaluate_amended re inclusion exclusion rng policy data"
proof -
  from assms(1) have
    p: "regex_pattern self = spec_expression (spec_patterns inclusion)" and
    u: "unwanted_regex_patterns self = spec_expression (spec_patterns exclusion)" and
    c: "context_range self = rng" and
    m: "relevant_match self = policy_name policy"
    using binary_init_stored by blast+
  let ?spans = "finditer re (spec_expression (spec_patterns inclusion)) data"
  have "map (match_result re self data) ?spans =
        map (spec_qualified_amended re exclusion rng data) ?spans"
    using assms(2,3) c u by (rule map_match_result_amended)
  with binary_call_reduce [OF m, of re data] p show ?thesis
    by (simp add: spec_evaluate_amended_def)
qed

theorem binary_call_refines_spec_witness:
  "binary_init (PStr ''ab'') (PList [PStr ''x'']) (Some 1) (policy_name PolicyLast) =
     Inr \<lparr>regex_pattern = ''ab'', unwanted_regex_patterns = ''x'',
          context_range = Some 1, relevant_match = ''last''\<rparr> \<and>
   radius_ok (Some 1) \<and>
   list_all (span_in_text ''xab ab'')
     (finditer literal_re (spec_expression (spec_patterns (PStr ''ab''))) ''xab ab'') \<and>
   binary_call literal_re
     \<lparr>regex_pattern = ''ab'', unwanted_regex_patterns = ''x'',
      context_range = Some 1, relevant_match = ''last''\<rparr> ''xab ab'' = True \<and>
   spec_evaluate_amended literal_re (PStr ''ab'') (PList [PStr ''x'']) (Some 1) PolicyLast
     ''xab ab'' = True \<and>
   spec_evaluate_amended literal_re (PStr ''ab'') (PList [PStr ''x'']) (Some 1) PolicyFirst
     ''xab ab'' = False"
proof -
  let ?self = "\<lparr>regex_pattern = ''ab'', unwanted_regex_patterns = ''x'',
      context_range = Some 1, relevant_match = ''last''\<rparr>"
  have h0: "binary_init (PStr ''ab'') (PList [PStr ''x'']) (Some 1) (policy_name PolicyLast) =
      Inr ?self"
    by (simp add: binary_init_def)
  have h1: "radius_ok (Some 1)" by (simp add: radius_ok_def)
  have h2: "list_all (span_in_text ''xab ab'')
      (finditer literal_re (spec_expression (spec_patterns (PStr ''ab''))) ''xab ab'')"
    by (simp add: literal_re_def span_in_text_def)
  have e1: "spec_evaluate_amended literal_re (PStr ''ab'') (PList [PStr ''x'']) (Some 1)
      PolicyLast ''xab ab'' = True"
    by (simp add: spec_evaluate_amended_def spec_qualified_amended_def
        spec_context_window_def literal_re_def upt_rec)
  have e2: "spec_evaluate_amended literal_re (PStr ''ab'') (PList [PStr ''x'']) (Some 1)
      PolicyFirst ''xab ab'' = False"
    by (simp add: spec_evaluate_amended_def spec_qualified_amended_def
        spec_context_window_def literal_re_def upt_rec)
  have c: "binary_call literal_re ?self ''xab ab'' = True"
    using binary_call_refines_spec [OF h0 h1 h2] e1 by simp
  show ?thesis using h0 h1 h2 c e1 e2 by simp
qed

lemma match_result_no_exclusion:
  "unwanted_regex_patterns self = [] \<Longrightarrow> match_result re self data span = True"
  by (simp add: match_result_def)

lemma scan_no_exclusion:
  "unwanted_regex_patterns self = [] \<Longrightarrow> spans \<noteq> [] \<Longrightarrow> scan re self data c spans = True"
proof (induction spans arbitrary: c)
  case Nil
  then show ?case by simp
next
  case (Cons s spans)
  then show ?case
    by (cases spans) (simp_all add: Let_def match_result_no_exclusion)
qed

text \<open>
  C10. With the empty list as the inclusion patterns and as the exclusion patterns (the
  default), construction succeeds, with the empty expression as both; and on every text on
  which \<open>re.finditer\<close> yields for the empty expression what Python's yields, an empty
  match at every position, the matcher returns true, whatever the radius and whatever the
  string given as the policy, \<open>any\<close>, \<open>first\<close> and \<open>last\<close> among them.
\<close>

theorem empty_inclusion_list_always_true:
  assumes "finditer re [] data = empty_pattern_spans data"
  shows "binary_init (PList []) (PList []) rng policy =
           Inr \<lparr>regex_pattern = [], unwanted_regex_patterns = [],
                context_range = rng, relevant_match = policy\<rparr> \<and>
         binary_call re
           \<lparr>regex_pattern = [], unwanted_regex_patterns = [],
            context_range = rng, relevant_match = policy\<rparr> data = True"
proof -
  have "empty_pattern_spans data \<noteq> []"
    by (simp add: empty_pattern_spans_def upt_rec)
  with assms show ?thesis
    by (simp add: binary_init_def binary_call_def scan_no_exclusion)
qed

theorem empty_inclusion_list_always_true_witness:
  "finditer literal_re [] ''abc'' = empty_pattern_spans ''abc'' \<and>
   finditer literal_re [] [] = empty_pattern_spans [] \<and>
   binary_call literal_re
     \<lparr>regex_pattern = [], unwanted_regex_patterns = [],
      context_range = None, relevant_match = ''any''\<rparr> ''abc'' = True \<and>
   binary_call literal_re
     \<lparr>regex_pattern = [], unwanted_regex_patterns = [],
      context_range = Some 0, relevant_match = ''last''\<rparr> [] = True"
proof -
  have h1: "finditer literal_re [] ''abc'' = empty_pattern_spans ''abc''"
    by (simp add: literal_re_def empty_pattern_spans_def upt_rec)
  have h2: "finditer literal_re [] [] = empty_pattern_spans []"
    by (simp add: literal_re_def empty_pattern_spans_def)
  show ?thesis
    using empty_inclusion_list_always_true [OF h1, of None "''any''"]
      empty_inclusion_list_always_true [OF h2, of "Some 0" "''last''"] h1 h2
    by simp
qed

section \<open>The multi-label classifier: results\<close>

lemma dict_set_map_fst:
  "map fst (dict_set kvs k v) =
     (if k \<in> set (map fst kvs) then map fst kvs else map fst kvs @ [k])"
  by (induction kvs) force+

lemma dict_set_keys: "fst ` set (dict_set kvs k v) = insert k (fst ` set kvs)"
proof -
  have "set (map fst (dict_set kvs k v)) = insert k (set (map fst kvs))"
    by (auto simp: dict_set_map_fst)
  then show ?thesis by simp
qed

lemma dict_set_fresh: "k \<notin> fst ` set kvs \<Longrightarrow> dict_set kvs k v = kvs @ [(k, v)]"
  by (induction kvs) auto

lemma mapping_built:
  assumes "get_label_to_regex_binary_classifier_mapping cfg acc = Inr m"
    and "distinct (map fst acc @ map fst cfg)"
  shows "\<exists>m'. m = acc @ m' \<and> list_all2 built_from cfg m'"
  using assms
proof (induction cfg arbitrary: acc)
  case Nil
  then show ?case by simp
next
  case (Cons item cfg)
  obtain label kw where item: "item = (label, kw)" by (cases item)
  from Cons.prems(1) item obtain clf where
    clf: "binary_init_kwargs kw = Inr clf" and
    rest: "get_label_to_regex_binary_classifier_mapping cfg (dict_set acc label clf) = Inr m"
    by (auto split: sum.splits)
  from Cons.prems(2) item have fresh: "label \<notin> fst ` set acc" by auto
  then have ds: "dict_set acc label clf = acc @ [(label, clf)]" by (rule dict_set_fresh)
  from Cons.prems(2) item have "distinct (map fst (acc @ [(label, clf)]) @ map fst cfg)"
    by auto
  with Cons.IH [of "acc @ [(label, clf)]"] rest ds
  obtain m' where m': "m = (acc @ [(label, clf)]) @ m'" "list_all2 built_from cfg m'" by auto
  then have "m = acc @ ((label, clf) # m')" by simp
  moreover have "list_all2 built_from (item # cfg) ((label, clf) # m')"
    using m'(2) item clf by (simp add: built_from_def)
  ultimately show ?case by blast
qed

lemma built_from_keys: "list_all2 built_from cfg m \<Longrightarrow> map fst m = map fst cfg"
  by (induction rule: list_all2_induct) (simp_all add: built_from_def)

lemma multilabel_loop_filter:
  "multilabel_loop re data m labels =
     labels @ map fst (filter (\<lambda>entry. binary_call re (snd entry) data) m)"
  by (induction m arbitrary: labels) (auto simp: Let_def)

lemma multilabel_call_filter:
  assumes "distinct (map fst (regex_binary_classifier_per_label self))"
  shows "multilabel_call re self data =
         filter (label_matches re self data) (map fst (regex_binary_classifier_per_label self))"
proof -
  let ?m = "regex_binary_classifier_per_label self"
  have "filter (\<lambda>entry. binary_call re (snd entry) data) ?m =
        filter (label_matches re self data \<circ> fst) ?m"
  proof (rule filter_cong [OF refl])
    fix entry assume "entry \<in> set ?m"
    then have "map_of ?m (fst entry) = Some (snd entry)"
      using assms map_of_is_SomeI [of ?m "fst entry" "snd entry"] by simp
    then show "binary_call re (snd entry) data = (label_matches re self data \<circ> fst) entry"
      by (simp add: label_matches_def)
  qed
  then show ?thesis
    by (simp add: multilabel_call_def multilabel_loop_filter filter_map)
qed

lemma label_matches_key:
  "label_matches re self data label \<Longrightarrow>
   label \<in> set (map fst (regex_binary_classifier_per_label self))"
  by (auto simp: label_matches_def split: option.splits dest: map_of_SomeD intro: rev_image_eqI)

text \<open>
  C4. For a configuration (a dictionary, so its labels are distinct) from which the
  classifier is built, each label is bound to the matcher constructed from its arguments,
  in the order of the configuration; for every text the result is the list of the labels
  of the configuration whose matcher returns true, in that order; it has no duplicates;
  and a label is in it if and only if its matcher returns true on the text.
\<close>

theorem multilabel_call_labels:
  assumes "distinct (map fst cfg)" and "multilabel_init cfg = Inr self"
  shows "list_all2 built_from cfg (regex_binary_classifier_per_label self) \<and>
         multilabel_call re self data = filter (label_matches re self data) (map fst cfg) \<and>
         distinct (multilabel_call re self data) \<and>
         (label \<in> set (multilabel_call re self data) \<longleftrightarrow> label_matches re self data label)"
proof -
  let ?m = "regex_binary_classifier_per_label self"
  from assms(2) have "get_label_to_regex_binary_classifier_mapping cfg [] = Inr ?m"
    by (auto simp: multilabel_init_def split: sum.splits)
  with assms(1) have b: "list_all2 built_from cfg ?m"
    using mapping_built [of cfg "[]" ?m] by simp
  then have keys: "map fst ?m = map fst cfg" by (rule built_from_keys)
  with assms(1) have "distinct (map fst ?m)" by simp
  then have f: "multilabel_call re self data =
      filter (label_matches re self data) (map fst cfg)"
    using keys multilabel_call_filter [of self re data] by simp
  have k: "label_matches re self data label \<Longrightarrow> label \<in> set (map fst cfg)"
    using label_matches_key [of re self data label] keys by simp
  show ?thesis using b f k assms(1) by auto
qed

lemma sentiment_init: "multilabel_init sentiment_kwargs = Inr sentiment_classifier"
  by (simp add: multilabel_init_def sentiment_kwargs_def sentiment_classifier_def
      default_kwargs_def matcher_for_def binary_init_kwargs_def binary_init_def)

lemma matcher_great: "binary_call literal_re (matcher_for ''great'') ''great and ok'' = True"
  by (simp add: binary_call_def matcher_for_def literal_re_def match_result_def)

lemma matcher_bad: "binary_call literal_re (matcher_for ''bad'') ''great and ok'' = False"
  by (simp add: binary_call_def matcher_for_def literal_re_def match_result_def)

lemma matcher_ok: "binary_call literal_re (matcher_for ''ok'') ''great and ok'' = True"
  by (simp add: binary_call_def matcher_for_def literal_re_def match_result_def)

theorem multilabel_call_labels_witness:
  "distinct (map fst sentiment_kwargs) \<and>
   multilabel_init sentiment_kwargs = Inr sentiment_classifier \<and>
   multilabel_call literal_re sentiment_classifier ''great and ok'' =
     [''positive'', ''neutral''] \<and>
   ''negative'' \<notin> set (multilabel_call literal_re sentiment_classifier ''great and ok'')"
proof -
  have h1: "distinct (map fst sentiment_kwargs)" by (simp add: sentiment_kwargs_def)
  have m: "label_matches literal_re sentiment_classifier ''great and ok'' ''positive''"
      "\<not> label_matches literal_re sentiment_classifier ''great and ok'' ''negative''"
      "label_matches literal_re sentiment_classifier ''great and ok'' ''neutral''"
    by (simp_all add: label_matches_def sentiment_classifier_def matcher_great matcher_bad
        matcher_ok)
  have r: "multilabel_call literal_re sentiment_classifier ''great and ok'' =
      [''positive'', ''neutral'']"
    using multilabel_call_labels [OF h1 sentiment_init, of literal_re "''great and ok''"] m
    by (simp add: sentiment_kwargs_def)
  show ?thesis using h1 sentiment_init r by simp
qed

section \<open>The multi-class classifier: results\<close>

lemma multiclass_loop_find:
  "multiclass_loop ps res = find (\<lambda>c. c \<in> set res) ps"
  by (induction ps) simp_all

text \<open>
  C5. For a resolver built with a priority list \<open>ps\<close>, that list is the one scanned, and
  for every text the result is the first label of \<open>ps\<close> that is in the result of the
  multi-label classifier: it is \<open>Some c\<close> exactly when \<open>c\<close> stands at a position of
  \<open>ps\<close>, is in that result, and no label at an earlier position is; it is \<open>None\<close>, a
  value and not an error, exactly when no label of \<open>ps\<close> is in that result.
\<close>

theorem multiclass_call_first_priority:
  assumes "multiclass_init cfg (Some ps) = Inr self"
  shows "classes_priorities self = ps \<and>
         multiclass_call re self data =
           find (\<lambda>c. c \<in> set (multilabel_call re (regex_multilabel_classifier self) data)) ps \<and>
         (multiclass_call re self data = None \<longleftrightarrow>
            list_all
              (\<lambda>c. c \<notin> set (multilabel_call re (regex_multilabel_classifier self) data)) ps) \<and>
         (multiclass_call re self data = Some c \<longleftrightarrow>
            (\<exists>i<length ps. ps ! i = c \<and>
               c \<in> set (multilabel_call re (regex_multilabel_classifier self) data) \<and>
               (\<forall>j<i. ps ! j \<notin>
                  set (multilabel_call re (regex_multilabel_classifier self) data))))"
proof -
  let ?res = "multilabel_call re (regex_multilabel_classifier self) data"
  from assms have ps: "classes_priorities self = ps"
    by (auto simp: multiclass_init_def split: sum.splits)
  then have f: "multiclass_call re self data = find (\<lambda>c. c \<in> set ?res) ps"
    by (simp add: multiclass_call_def multiclass_loop_find)
  have n: "find (\<lambda>c. c \<in> set ?res) ps = None \<longleftrightarrow> list_all (\<lambda>c. c \<notin> set ?res) ps"
    by (auto simp: find_None_iff list_all_iff)
  have s: "find (\<lambda>c. c \<in> set ?res) ps = Some c \<longleftrightarrow>
      (\<exists>i<length ps. ps ! i = c \<and> c \<in> set ?res \<and> (\<forall>j<i. ps ! j \<notin> set ?res))"
    by (auto simp: find_Some_iff)
  show ?thesis using ps f n s by simp
qed

lemma resolver_init:
  "multiclass_init sentiment_kwargs (Some [''negative'', ''positive'', ''neutral'']) =
     Inr sentiment_resolver"
  by (simp add: multiclass_init_def sentiment_init sentiment_resolver_def)

lemma sentiment_labels_great_ok:
  "multilabel_call literal_re sentiment_classifier ''great and ok'' =
     [''positive'', ''neutral'']"
  by (simp add: multilabel_call_def sentiment_classifier_def matcher_great matcher_bad
      matcher_ok)

lemma sentiment_labels_nothing:
  "multilabel_call literal_re sentiment_classifier ''nothing'' = []"
  by (simp add: multilabel_call_def sentiment_classifier_def binary_call_def matcher_for_def
      literal_re_def match_result_def)

theorem multiclass_call_first_priority_witness:
  "multiclass_init sentiment_kwargs (Some [''negative'', ''positive'', ''neutral'']) =
     Inr sentiment_resolver \<and>
   multiclass_call literal_re sentiment_resolver ''great and ok'' = Some ''positive'' \<and>
   multiclass_call literal_re sentiment_resolver ''nothing'' = None"
  using multiclass_call_first_priority [OF resolver_init, of literal_re "''great and ok''"]
    multiclass_call_first_priority [OF resolver_init, of literal_re "''nothing''"]
    resolver_init
  by (simp add: sentiment_resolver_def sentiment_labels_great_ok sentiment_labels_nothing)

section \<open>No state between calls\<close>

lemma run_read [simp]: "run_state (read attr) self = (attr self, self)"
  by (simp add: read_def)

lemma run_on_attr:
  "run_state (on_attr attr store m) self =
     (fst (run_state m (attr self)), store (snd (run_state m (attr self))) self)"
  by (simp add: on_attr_def split: prod.splits)

lemma run_scan_m:
  "run_state (scan_m re data curr_res spans) self = (scan re self data curr_res spans, self)"
  by (induction spans arbitrary: curr_res) (simp_all add: Let_def match_result_def)

lemma run_binary_call_m:
  "run_state (binary_call_m re data) self = (binary_call re self data, self)"
  by (simp add: binary_call_m_def binary_call_def run_scan_m)

lemma store_item_matcher_same:
  "store_item_matcher i (item_matcher i self) self = self"
  by (simp add: store_item_matcher_def item_matcher_def)

lemma run_multilabel_loop_m:
  assumes "k \<le> length (regex_binary_classifier_per_label self)"
  shows "run_state
           (multilabel_loop_m re data [k..<length (regex_binary_classifier_per_label self)]
              labels) self =
         (multilabel_loop re data (drop k (regex_binary_classifier_per_label self)) labels,
          self)"
  using assms
proof (induction "length (regex_binary_classifier_per_label self) - k" arbitrary: k labels)
  case 0
  then show ?case by simp
next
  case (Suc n)
  let ?m = "regex_binary_classifier_per_label self"
  from Suc.hyps(2) have k: "k < length ?m" by simp
  then have u: "[k..<length ?m] = k # [Suc k..<length ?m]" by (simp add: upt_rec)
  from k have d: "drop k ?m = (fst (?m ! k), snd (?m ! k)) # drop (Suc k) ?m"
    by (simp add: Cons_nth_drop_Suc)
  from Suc.hyps(2) have n: "n = length ?m - Suc k" by simp
  have ih: "\<And>labels. run_state (multilabel_loop_m re data [Suc k..<length ?m] labels) self =
      (multilabel_loop re data (drop (Suc k) ?m) labels, self)"
    using Suc.hyps(1) [OF n] k by simp
  show ?case
    unfolding u d
    by (simp add: run_on_attr run_binary_call_m store_item_matcher_same ih Let_def
        item_matcher_def [symmetric])
qed

lemma run_multilabel_call_m:
  "run_state (multilabel_call_m re data) self = (multilabel_call re self data, self)"
  using run_multilabel_loop_m [of 0 self re data "[]"]
  by (simp add: multilabel_call_m_def multilabel_call_def)

lemma run_multiclass_call_m:
  "run_state (multiclass_call_m re data) self = (multiclass_call re self data, self)"
  by (simp add: multiclass_call_m_def multiclass_call_def run_on_attr run_multilabel_call_m)

text \<open>
  C8. For each of the three stages, whatever its configuration and the text: run as a
  program on the state of the object, nested matchers and classifier included, two calls
  in a row on the same text return the same result twice, the one the stage computes from
  its configuration and the text, and leave the state as it was before the first call.
\<close>

theorem cascade_deterministic:
  "run_state (twice (binary_call_m re data)) b =
     ((binary_call re b data, binary_call re b data), b) \<and>
   run_state (twice (multilabel_call_m re data)) ml =
     ((multilabel_call re ml data, multilabel_call re ml data), ml) \<and>
   run_state (twice (multiclass_call_m re data)) mc =
     ((multiclass_call re mc data, multiclass_call re mc data), mc)"
  by (simp add: twice_def run_binary_call_m run_multilabel_call_m run_multiclass_call_m)

section \<open>The executor: results\<close>

text \<open>
  C7. When \<open>inputs\<close> is neither a dictionary nor a list, a string or an integer for
  instance, the call raises \<open>ValueError\<close> and nothing has happened before: the agent is
  not constructed and no task is submitted.
\<close>

theorem executer_rejects_other_inputs:
  assumes "\<not> is_dict inputs" and "\<not> is_list inputs"
  shows "executer_call agent_cls as_completed inputs kwargs = ([], Inl ValueError)"
  using assms by (simp add: executer_call_def)

theorem executer_rejects_other_inputs_witness:
  "\<not> is_dict (PStr ''abc'') \<and> \<not> is_list (PStr ''abc'') \<and>
   \<not> is_dict (PInt 5) \<and> \<not> is_list (PInt 5) \<and>
   executer_call index_agent_class rev (PStr ''abc'') [] = ([], Inl ValueError) \<and>
   executer_call index_agent_class rev (PInt 5) [] = ([], Inl ValueError)"
proof -
  have s: "\<not> is_dict (PStr ''abc'')" "\<not> is_list (PStr ''abc'')" by simp_all
  have i: "\<not> is_dict (PInt 5)" "\<not> is_list (PInt 5)" by simp_all
  show ?thesis
    using executer_rejects_other_inputs [OF s, of index_agent_class rev "[]"]
      executer_rejects_other_inputs [OF i, of index_agent_class rev "[]"] s i
    by simp
qed

lemma enumerate_five_inputs:
  "enumerate_dict (list_items five_inputs) =
     [(PInt 0, PDict [(PStr ''i'', PInt 0)]), (PInt 1, PDict [(PStr ''i'', PInt 1)]),
      (PInt 2, PDict [(PStr ''i'', PInt 2)]), (PInt 3, PDict [(PStr ''i'', PInt 3)]),
      (PInt 4, PDict [(PStr ''i'', PInt 4)])]"
  by (simp add: enumerate_dict_def five_inputs_def upt_rec)

text \<open>
  C1. A list of \<open>n\<close> inputs is claimed to give the list of the \<open>n\<close> results in the order
  of the inputs. On the list of five argument sets, with the agent that returns its index,
  the call returns a dictionary from the indices to the results, in the order in which the
  futures complete: in the order of the inputs when they complete in the order of
  submission, in the opposite order when they complete the other way round. It is not the
  list \<open>[0, 1, 2, 3, 4]\<close>.
\<close>

theorem executer_list_returns_dict:
  "executer_call index_agent_class (\<lambda>fs. fs) five_inputs [] =
     ([Construct, Submit (PInt 0), Submit (PInt 1), Submit (PInt 2), Submit (PInt 3),
       Submit (PInt 4)],
      Inr (PDict [(PInt 0, PInt 0), (PInt 1, PInt 1), (PInt 2, PInt 2), (PInt 3, PInt 3),
                  (PInt 4, PInt 4)])) \<and>
   snd (executer_call index_agent_class (\<lambda>fs. fs) five_inputs []) \<noteq>
     Inr (PList [PInt 0, PInt 1, PInt 2, PInt 3, PInt 4]) \<and>
   snd (executer_call index_agent_class rev five_inputs []) =
     Inr (PDict [(PInt 4, PInt 4), (PInt 3, PInt 3), (PInt 2, PInt 2), (PInt 1, PInt 1),
                 (PInt 0, PInt 0)])"
proof -
  have l: "is_list five_inputs" by (simp add: five_inputs_def)
  show ?thesis
    by (simp add: executer_call_def l enumerate_five_inputs index_agent_class_def
        index_agent_def)
qed

text \<open>
  Whatever the inputs, the agent and the order of completion, the call never returns a
  list: the test that would convert the results reads the dictionary bound to \<open>inputs\<close>.
\<close>

lemma executer_never_returns_list:
  "snd (executer_call agent_cls as_completed inputs kwargs) \<noteq> Inr (PList rs)"
  by (auto simp: executer_call_def Let_def split: sum.splits prod.splits)

text \<open>
  For a dictionary the other half holds: when the call returns, the futures completing in
  any order, each once, the result is a dictionary whose keys are those of the inputs.
\<close>

lemma submit_all_keys:
  "submit_all agent items = (log, Inr futures) \<Longrightarrow> map snd futures = map fst items"
proof (induction items arbitrary: log futures)
  case Nil
  then show ?case by simp
next
  case (Cons item items)
  then show ?case
    by (cases item) (auto split: sum.splits prod.splits)
qed

lemma collect_results_keys:
  "collect_results futures acc = Inr results \<Longrightarrow>
   fst ` set results = fst ` set acc \<union> snd ` set futures"
proof (induction futures arbitrary: acc)
  case Nil
  then show ?case by simp
next
  case (Cons f futures)
  then show ?case
    by (cases f) (auto simp: dict_set_keys split: sum.splits)
qed

lemma executer_dict_keys:
  assumes "executer_call agent_cls as_completed (PDict kvs) kwargs = (log, Inr res)"
    and "\<And>fs. set (as_completed fs) = set fs"
  shows "\<exists>results. res = PDict results \<and> fst ` set results = fst ` set kvs"
proof -
  from assms(1) obtain agent log' futures results where
    s: "submit_all agent kvs = (log', Inr futures)" and
    c: "collect_results (as_completed futures) [] = Inr results" and
    r: "res = PDict results"
    by (auto simp: executer_call_def Let_def split: sum.splits prod.splits)
  from s have "map snd futures = map fst kvs" by (rule submit_all_keys)
  then have "snd ` set futures = fst ` set kvs" by (metis set_map)
  with collect_results_keys [OF c] assms(2) r show ?thesis by simp
qed

end
